theory Spec2Isabelle
  imports Main "HOL-Library.Word"
begin

unbundle bit_operations_syntax

section \<open>The spark worker: data\<close>

text \<open>
  A shallow embedding of \<^verbatim>\<open>worker_spark.c\<close>. C \<^verbatim>\<open>int\<close> and \<^verbatim>\<open>uint32\<close> are
  \<open>32 word\<close>, \<^verbatim>\<open>long\<close> is \<open>64 word\<close> (LP64). The three string settings are
  modelled as set (non-NULL) C strings. Calls into the host (latch, transaction, SPI,
  logging, process exit) are recorded, in program order, as a list of events; what the
  host answers is read from an environment.
\<close>

type_synonym cint = "32 word"
type_synonym clong = "64 word"

datatype signal = SIGHUP | SIGTERM

datatype elevel = DEBUG1 | FATAL

datatype elog_arg = ArgInt cint | ArgStr string

datatype backend_state = STATE_RUNNING | STATE_IDLE

datatype event =
    Elog elevel string "elog_arg list"
  | Pqsignal signal
  | BackgroundWorkerUnblockSignals
  | BackgroundWorkerInitializeConnection string
  | WaitLatch cint clong
  | ResetLatch
  | ProcExit cint
  | ProcessConfigFile
  | SetCurrentStatementStartTimestamp
  | StartTransactionCommand
  | SPI_connect
  | PushActiveSnapshot
  | ReportActivity backend_state "string option"
  | SPI_execute string bool clong
  | SPI_finish
  | PopActiveSnapshot
  | CommitTransactionCommand

text \<open>The four GUC variables, as a configuration file assigns them.\<close>

record settings =
  naptime :: cint
  database :: string
  schema :: string
  procedure :: string

text \<open>
  The globals of the process: the two flags set by the signal handlers, the four GUC
  variables, \<^verbatim>\<open>errno\<close>, \<^verbatim>\<open>MyProc\<close> (\<open>None\<close> is the NULL pointer, \<open>Some l\<close> a
  PGPROC whose latch is set iff \<open>l\<close>), and the string buffer of \<^verbatim>\<open>worker_spark_main\<close>.
\<close>

record worker =
  got_sighup :: bool
  got_sigterm :: bool
  worker_spark_naptime :: cint
  worker_spark_database :: string
  worker_spark_procedure :: string
  worker_spark_schema :: string
  errno :: cint
  MyProc :: "bool option"
  buf :: string

text \<open>What \<^verbatim>\<open>SPI_execute\<close> leaves behind: its return code, \<^verbatim>\<open>SPI_processed\<close> and
  the rows of \<^verbatim>\<open>SPI_tuptable\<close>.\<close>

record spi_result =
  spi_ret :: cint
  spi_processed :: cint
  spi_tuptable :: "string list"

text \<open>
  A signal as it is delivered: which one, and what the host's \<^verbatim>\<open>SetLatch\<close> does to
  \<^verbatim>\<open>errno\<close> when the handler calls it (\<open>None\<close>: leaves it alone, \<open>Some e\<close>: leaves
  \<open>e\<close> there).
\<close>

type_synonym delivery = "signal \<times> cint option"

text \<open>
  The environment of one pass through the loop body:
  the signals delivered from the loop test until \<^verbatim>\<open>WaitLatch\<close> returns, the value it
  returns, the signals delivered between \<^verbatim>\<open>ResetLatch\<close> and the test of
  \<^verbatim>\<open>got_sighup\<close>, those delivered between that test and the clearing of the flag,
  the settings the configuration file holds when \<^verbatim>\<open>ProcessConfigFile\<close> reads it, the
  answer of \<^verbatim>\<open>SPI_execute\<close> to each command text, and the signals delivered from then
  until the loop test.
\<close>

record cycle_env =
  sig_wait :: "delivery list"
  wl_rc :: cint
  sig_woken :: "delivery list"
  sig_reload :: "delivery list"
  conf_file :: settings
  spi :: "string \<Rightarrow> spi_result"
  sig_exec :: "delivery list"

text \<open>How a run ends: \<^verbatim>\<open>proc_exit(n)\<close>, \<^verbatim>\<open>elog(FATAL, ...)\<close>, or still in the loop
  when the observed environment ends.\<close>

datatype outcome = Exited cint | Fatal | Running

datatype flow = Continue | Stop outcome

type_synonym step = "flow \<times> worker \<times> event list"

section \<open>Host constants\<close>

text \<open>From PostgreSQL's \<^verbatim>\<open>storage/latch.h\<close> and \<^verbatim>\<open>executor/spi.h\<close>.\<close>

definition WL_LATCH_SET :: cint where "WL_LATCH_SET = 1"
definition WL_SOCKET_READABLE :: cint where "WL_SOCKET_READABLE = 2"
definition WL_SOCKET_WRITEABLE :: cint where "WL_SOCKET_WRITEABLE = 4"
definition WL_TIMEOUT :: cint where "WL_TIMEOUT = 8"
definition WL_POSTMASTER_DEATH :: cint where "WL_POSTMASTER_DEATH = 16"

definition SPI_OK_UTILITY :: cint where "SPI_OK_UTILITY = 4"
definition SPI_OK_SELECT :: cint where "SPI_OK_SELECT = 5"

section \<open>Signal handlers\<close>

text \<open>\<^verbatim>\<open>SetLatch(&MyProc->procLatch)\<close>: sets the latch; its effect on \<^verbatim>\<open>errno\<close> is
  the host's.\<close>

definition SetLatch :: "cint option \<Rightarrow> worker \<Rightarrow> worker" where
  "SetLatch le w =
     w\<lparr>MyProc := map_option (\<lambda>_. True) (MyProc w),
       errno := (case le of None \<Rightarrow> errno w | Some e \<Rightarrow> e)\<rparr>"

definition worker_spark_sigterm :: "cint option \<Rightarrow> worker \<Rightarrow> worker" where
  "worker_spark_sigterm le w =
     (let save_errno = errno w;
          w1 = w\<lparr>got_sigterm := True\<rparr>;
          w2 = (if MyProc w1 \<noteq> None then SetLatch le w1 else w1)
      in w2\<lparr>errno := save_errno\<rparr>)"

definition worker_spark_sighup :: "cint option \<Rightarrow> worker \<Rightarrow> worker" where
  "worker_spark_sighup le w =
     (let w1 = w\<lparr>got_sighup := True\<rparr>
      in if MyProc w1 \<noteq> None then SetLatch le w1 else w1)"

text \<open>Delivery runs the handler installed by \<^verbatim>\<open>pqsignal\<close> for the signal.\<close>

definition deliver :: "delivery \<Rightarrow> worker \<Rightarrow> worker" where
  "deliver d w =
     (case fst d of
        SIGHUP \<Rightarrow> worker_spark_sighup (snd d) w
      | SIGTERM \<Rightarrow> worker_spark_sigterm (snd d) w)"

definition deliveries :: "delivery list \<Rightarrow> worker \<Rightarrow> worker" where
  "deliveries ds w = fold deliver ds w"

section \<open>The loop body\<close>

definition wake_events :: cint where
  "wake_events = WL_LATCH_SET OR WL_TIMEOUT OR WL_POSTMASTER_DEATH"

text \<open>\<^verbatim>\<open>worker_spark_naptime * 1000L\<close>: the \<^verbatim>\<open>int\<close> is converted to \<^verbatim>\<open>long\<close>.\<close>

definition wait_timeout :: "worker \<Rightarrow> clong" where
  "wait_timeout w = scast (worker_spark_naptime w) * 1000"

definition lookup_query :: "string \<Rightarrow> string \<Rightarrow> string" where
  "lookup_query sch prc =
     ''SELECT 1 FROM pg_proc p JOIN pg_namespace n ON p.pronamespace = n.oid WHERE n.nspname = ''
     @ [CHR 0x27] @ sch @ [CHR 0x27] @ '' AND p.proname = '' @ [CHR 0x27] @ prc @ [CHR 0x27]
     @ '' LIMIT 1''"

definition fire_query :: "string \<Rightarrow> string \<Rightarrow> string" where
  "fire_query sch prc = ''SELECT '' @ sch @ ''.'' @ prc @ ''()''"

definition fatal_msg :: string where
  "fatal_msg = ''cannot query the database: error code %d''"

text \<open>Waiting: \<^verbatim>\<open>WaitLatch\<close>, \<^verbatim>\<open>ResetLatch\<close> and the emergency bailout.\<close>

definition waiting :: "cycle_env \<Rightarrow> worker \<Rightarrow> step" where
  "waiting env w =
     (let ev = [WaitLatch wake_events (wait_timeout w), ResetLatch];
          w1 = deliveries (sig_wait env) w;
          rc = wl_rc env;
          w2 = w1\<lparr>MyProc := map_option (\<lambda>_. False) (MyProc w1)\<rparr>
      in if rc AND WL_POSTMASTER_DEATH \<noteq> 0
         then (Stop (Exited 1), w2, ev @ [ProcExit 1])
         else (Continue, deliveries (sig_woken env) w2, ev))"

text \<open>\<^verbatim>\<open>ProcessConfigFile(PGC_SIGHUP)\<close> assigns the four variables, all registered
  with context \<^verbatim>\<open>PGC_SIGHUP\<close>, from the configuration file.\<close>

definition process_config_file :: "settings \<Rightarrow> worker \<Rightarrow> worker" where
  "process_config_file cf w =
     w\<lparr>worker_spark_naptime := naptime cf,
       worker_spark_database := database cf,
       worker_spark_schema := schema cf,
       worker_spark_procedure := procedure cf\<rparr>"

definition reloading :: "cycle_env \<Rightarrow> worker \<Rightarrow> step" where
  "reloading env w =
     (if got_sighup w
      then (let w1 = deliveries (sig_reload env) w;
                w2 = w1\<lparr>got_sighup := False\<rparr>
            in (Continue, process_config_file (conf_file env) w2, [ProcessConfigFile]))
      else (Continue, w, []))"

definition open_scope :: "worker \<Rightarrow> event list" where
  "open_scope w =
     [SetCurrentStatementStartTimestamp, StartTransactionCommand, SPI_connect,
      PushActiveSnapshot, ReportActivity STATE_RUNNING (Some (buf w))]"

definition close_scope :: "event list" where
  "close_scope =
     [SPI_finish, PopActiveSnapshot, CommitTransactionCommand, ReportActivity STATE_IDLE None]"

text \<open>Executing: the transaction, the catalog lookup and, on a match, the call.\<close>

definition executing :: "cycle_env \<Rightarrow> worker \<Rightarrow> step" where
  "executing env w =
     (let q1 = lookup_query (worker_spark_schema w) (worker_spark_procedure w);
          w1 = w\<lparr>buf := q1\<rparr>;
          ev1 = open_scope w
                @ [Elog DEBUG1 ''spark worker: looking for the procedure'' [],
                   SPI_execute q1 False 0];
          r1 = spi env q1
      in if spi_ret r1 \<noteq> SPI_OK_SELECT
         then (Stop Fatal, w1, ev1 @ [Elog FATAL fatal_msg [ArgInt (spi_ret r1)]])
         else if 0 < spi_processed r1
         then (let q2 = fire_query (worker_spark_schema w1) (worker_spark_procedure w1);
                   w2 = w1\<lparr>buf := q2\<rparr>;
                   ev2 = ev1 @ [Elog DEBUG1 ''spark worker: firing the procedure'' [],
                                SPI_execute q2 False 0];
                   r2 = spi env q2
               in if spi_ret r2 \<noteq> SPI_OK_SELECT
                  then (Stop Fatal, w2, ev2 @ [Elog FATAL fatal_msg [ArgInt (spi_ret r2)]])
                  else (Continue, deliveries (sig_exec env) w2, ev2 @ close_scope))
         else (Continue, deliveries (sig_exec env) w1,
               ev1 @ [Elog DEBUG1 ''spark worker: procedure %s.%s not found in database %s''
                        [ArgStr (worker_spark_schema w1), ArgStr (worker_spark_procedure w1),
                         ArgStr (worker_spark_database w1)]]
                   @ close_scope))"

text \<open>Sequencing: the second phase runs only if the first one falls through.\<close>

definition and_then :: "step \<Rightarrow> (worker \<Rightarrow> step) \<Rightarrow> step" where
  "and_then s f =
     (case s of
        (Continue, w, ev) \<Rightarrow> (case f w of (fl, w', ev') \<Rightarrow> (fl, w', ev @ ev'))
      | (Stop out, w, ev) \<Rightarrow> (Stop out, w, ev))"

text \<open>From the top of the loop body to the start of the transaction.\<close>

definition wake_up :: "cycle_env \<Rightarrow> worker \<Rightarrow> step" where
  "wake_up env w = and_then (waiting env w) (reloading env)"

definition wake_cycle :: "cycle_env \<Rightarrow> worker \<Rightarrow> step" where
  "wake_cycle env w = and_then (wake_up env w) (executing env)"

section \<open>The main loop\<close>

text \<open>
  \<^verbatim>\<open>while (!got_sigterm) { ... } proc_exit(0);\<close> over the observed environment, one
  element per pass. The result is \<open>Running\<close> when the environment ends with the worker
  still in the loop.
\<close>

fun main_loop :: "worker \<Rightarrow> cycle_env list \<Rightarrow> outcome \<times> worker \<times> event list" where
  "main_loop w [] =
     (if got_sigterm w then (Exited 0, w, [ProcExit 0]) else (Running, w, []))"
| "main_loop w (env # envs) =
     (if got_sigterm w then (Exited 0, w, [ProcExit 0])
      else (case wake_cycle env w of
              (Continue, w', ev) \<Rightarrow>
                (case main_loop w' envs of (out, w'', ev') \<Rightarrow> (out, w'', ev @ ev'))
            | (Stop out, w', ev) \<Rightarrow> (out, w', ev)))"

text \<open>\<^verbatim>\<open>worker_spark_main\<close>: the set-up, with the signals delivered once they are
  unblocked, then the loop.\<close>

definition worker_spark_main ::
    "worker \<Rightarrow> delivery list \<Rightarrow> cycle_env list \<Rightarrow> outcome \<times> worker \<times> event list" where
  "worker_spark_main w sig_init envs =
     (let w1 = w\<lparr>buf := []\<rparr>;
          ev = [Elog DEBUG1 ''spark worker: start'' [], Pqsignal SIGHUP, Pqsignal SIGTERM,
                BackgroundWorkerUnblockSignals,
                BackgroundWorkerInitializeConnection (worker_spark_database w1)];
          w2 = deliveries sig_init w1
      in case main_loop w2 envs of (out, w', ev') \<Rightarrow> (out, w', ev @ ev'))"

section \<open>Reading a run\<close>

definition events :: "'a \<times> worker \<times> event list \<Rightarrow> event list" where
  "events r = snd (snd r)"

definition final :: "'a \<times> worker \<times> event list \<Rightarrow> worker" where
  "final r = fst (snd r)"

fun is_execute :: "event \<Rightarrow> bool" where
  "is_execute (SPI_execute q ro n) = True"
| "is_execute e = False"

fun is_fatal :: "event \<Rightarrow> bool" where
  "is_fatal (Elog FATAL m args) = True"
| "is_fatal e = False"

fun is_start :: "event \<Rightarrow> bool" where
  "is_start StartTransactionCommand = True"
| "is_start e = False"

text \<open>The two command texts a worker would build from its current settings.\<close>

definition lookup_text :: "worker \<Rightarrow> string" where
  "lookup_text w = lookup_query (worker_spark_schema w) (worker_spark_procedure w)"

definition call_text :: "worker \<Rightarrow> string" where
  "call_text w = fire_query (worker_spark_schema w) (worker_spark_procedure w)"

text \<open>
  A function of the catalog (a row of \<^verbatim>\<open>pg_proc\<close> joined with \<^verbatim>\<open>pg_namespace\<close>),
  and the functions invoked along a run, given the functions the host invokes for each
  command text.
\<close>

record pg_proc =
  nspname :: string
  proname :: string
  pronargs :: nat




text \<open>
  A monitor for the transaction, the SPI connection and the active snapshot: how many
  of each are open. An event is refused (\<open>None\<close>) when it would open a second
  transaction, use or close what is not open, commit with the connection or the
  snapshot still open, or wait on the latch with anything open.
\<close>

record scope =
  xacts :: nat
  connections :: nat
  snapshots :: nat

definition no_scope :: scope where
  "no_scope = \<lparr>xacts = 0, connections = 0, snapshots = 0\<rparr>"

definition full_scope :: scope where
  "full_scope = \<lparr>xacts = 1, connections = 1, snapshots = 1\<rparr>"

fun scope_step :: "scope \<Rightarrow> event \<Rightarrow> scope option" where
  "scope_step s StartTransactionCommand =
     (if xacts s = 0 then Some (s\<lparr>xacts := 1\<rparr>) else None)"
| "scope_step s SPI_connect =
     (if xacts s = 1 \<and> connections s = 0 then Some (s\<lparr>connections := 1\<rparr>) else None)"
| "scope_step s PushActiveSnapshot =
     (if xacts s = 1 \<and> snapshots s = 0 then Some (s\<lparr>snapshots := 1\<rparr>) else None)"
| "scope_step s (SPI_execute q ro n) =
     (if xacts s = 1 \<and> connections s = 1 \<and> snapshots s = 1 then Some s else None)"
| "scope_step s SPI_finish =
     (if connections s = 1 then Some (s\<lparr>connections := 0\<rparr>) else None)"
| "scope_step s PopActiveSnapshot =
     (if snapshots s = 1 then Some (s\<lparr>snapshots := 0\<rparr>) else None)"
| "scope_step s CommitTransactionCommand =
     (if xacts s = 1 \<and> connections s = 0 \<and> snapshots s = 0
      then Some (s\<lparr>xacts := 0\<rparr>) else None)"
| "scope_step s (WaitLatch m t) =
     (if xacts s = 0 \<and> connections s = 0 \<and> snapshots s = 0 then Some s else None)"
| "scope_step s e = Some s"

fun scope_run :: "scope \<Rightarrow> event list \<Rightarrow> scope option" where
  "scope_run s [] = Some s"
| "scope_run s (e # es) =
     (case scope_step s e of None \<Rightarrow> None | Some s' \<Rightarrow> scope_run s' es)"

section \<open>Sample runs\<close>

text \<open>The settings of the README's quickstart, and a worker that has just entered the
  loop with them.\<close>

definition quickstart :: settings where
  "quickstart = \<lparr>naptime = 5, database = ''my_db'', schema = ''public'',
                  procedure = ''my_spark''\<rparr>"

definition fresh :: worker where
  "fresh = \<lparr>got_sighup = False, got_sigterm = False, worker_spark_naptime = 5,
             worker_spark_database = ''my_db'', worker_spark_procedure = ''my_spark'',
             worker_spark_schema = ''public'', errno = 0, MyProc = Some False, buf = []\<rparr>"

definition one_row :: spi_result where
  "one_row = \<lparr>spi_ret = SPI_OK_SELECT, spi_processed = 1, spi_tuptable = [''1'']\<rparr>"

definition no_row :: spi_result where
  "no_row = \<lparr>spi_ret = SPI_OK_SELECT, spi_processed = 0, spi_tuptable = []\<rparr>"

definition utility_done :: spi_result where
  "utility_done = \<lparr>spi_ret = SPI_OK_UTILITY, spi_processed = 0, spi_tuptable = []\<rparr>"

text \<open>A database in which \<^verbatim>\<open>public.my_spark\<close> is the only function.\<close>

definition my_db :: "string \<Rightarrow> spi_result" where
  "my_db q = (if q = lookup_query ''public'' ''my_spark'' then one_row
              else if q = fire_query ''public'' ''my_spark'' then one_row
              else no_row)"

text \<open>A pass woken by the timeout, with no signal.\<close>

definition timeout_env :: cycle_env where
  "timeout_env = \<lparr>sig_wait = [], wl_rc = WL_TIMEOUT, sig_woken = [], sig_reload = [],
                   conf_file = quickstart, spi = my_db, sig_exec = []\<rparr>"

text \<open>A pass in which the wait reports that the postmaster has died.\<close>

definition death_env :: cycle_env where
  "death_env = timeout_env\<lparr>wl_rc := WL_LATCH_SET OR WL_POSTMASTER_DEATH\<rparr>"



text \<open>
  A procedure name that closes the string literal of the lookup and appends a command.
  \<^verbatim>\<open>SPI_execute\<close> runs every command of the text and returns the code of the last
  one, here that of a utility command.
\<close>

definition injected :: worker where
  "injected = fresh\<lparr>worker_spark_procedure := ''f'; CHECKPOINT; --''\<rparr>"

definition injected_db :: "string \<Rightarrow> spi_result" where
  "injected_db q = (if q = lookup_query ''public'' ''f'; CHECKPOINT; --'' then utility_done
                    else my_db q)"

definition injected_env :: cycle_env where
  "injected_env = timeout_env\<lparr>spi := injected_db\<rparr>"

text \<open>A pass woken by SIGHUP, after the configuration file has been edited to name
  another procedure and a naptime of a minute.\<close>

definition renamed :: settings where
  "renamed = \<lparr>naptime = 60, database = ''my_db'', schema = ''public'',
               procedure = ''other_spark''\<rparr>"

definition renamed_db :: "string \<Rightarrow> spi_result" where
  "renamed_db q = (if q = lookup_query ''public'' ''other_spark'' then one_row
                   else if q = fire_query ''public'' ''other_spark'' then one_row
                   else my_db q)"

definition reload_env :: cycle_env where
  "reload_env = \<lparr>sig_wait = [(SIGHUP, None)], wl_rc = WL_LATCH_SET, sig_woken = [],
                  sig_reload = [], conf_file = renamed, spi = renamed_db, sig_exec = []\<rparr>"









text \<open>A pass woken by SIGTERM.\<close>

definition sigterm_env :: cycle_env where
  "sigterm_env = timeout_env\<lparr>sig_wait := [(SIGTERM, None)], wl_rc := WL_LATCH_SET\<rparr>"

section \<open>Basic facts\<close>

lemma and_then_Continue:
  "and_then (Continue, w, ev) f = (case f w of (fl, w', ev') \<Rightarrow> (fl, w', ev @ ev'))"
  by (simp add: and_then_def)

lemma and_then_Stop: "and_then (Stop out, w, ev) f = (Stop out, w, ev)"
  by (simp add: and_then_def)

lemma deliveries_Nil: "deliveries [] w = w"
  by (simp add: deliveries_def)

lemma deliveries_Cons: "deliveries (d # ds) w = deliveries ds (deliver d w)"
  by (simp add: deliveries_def)

text \<open>The handlers touch the flags, the latch and \<^verbatim>\<open>errno\<close> only.\<close>

lemma deliver_frame:
  "worker_spark_naptime (deliver d w) = worker_spark_naptime w"
  "worker_spark_database (deliver d w) = worker_spark_database w"
  "worker_spark_schema (deliver d w) = worker_spark_schema w"
  "worker_spark_procedure (deliver d w) = worker_spark_procedure w"
  "buf (deliver d w) = buf w"
  by (simp_all add: deliver_def worker_spark_sighup_def worker_spark_sigterm_def SetLatch_def
        Let_def split: signal.split)

lemma deliveries_frame:
  "worker_spark_naptime (deliveries ds w) = worker_spark_naptime w"
  "worker_spark_database (deliveries ds w) = worker_spark_database w"
  "worker_spark_schema (deliveries ds w) = worker_spark_schema w"
  "worker_spark_procedure (deliveries ds w) = worker_spark_procedure w"
  "buf (deliveries ds w) = buf w"
  by (induction ds arbitrary: w; simp add: deliveries_Nil deliveries_Cons deliver_frame)+

text \<open>Nothing clears \<^verbatim>\<open>got_sigterm\<close>.\<close>

lemma deliver_keeps_sigterm: "got_sigterm w \<Longrightarrow> got_sigterm (deliver d w)"
  by (simp add: deliver_def worker_spark_sighup_def worker_spark_sigterm_def SetLatch_def
        Let_def split: signal.split)

lemma deliveries_keep_sigterm: "got_sigterm w \<Longrightarrow> got_sigterm (deliveries ds w)"
  by (induction ds arbitrary: w)
     (simp_all add: deliveries_Nil deliveries_Cons deliver_keeps_sigterm)

lemma deliver_sigterm: "got_sigterm (deliver (SIGTERM, le) w)"
  by (simp add: deliver_def worker_spark_sigterm_def SetLatch_def Let_def)

lemma deliveries_sigterm: "(SIGTERM, le) \<in> set ds \<Longrightarrow> got_sigterm (deliveries ds w)"
proof (induction ds arbitrary: w)
  case Nil
  then show ?case by simp
next
  case (Cons d ds)
  show ?case
  proof (cases "d = (SIGTERM, le)")
    case True
    then show ?thesis
      by (simp add: deliveries_Cons deliver_sigterm deliveries_keep_sigterm)
  next
    case False
    with Cons.prems have "(SIGTERM, le) \<in> set ds" by simp
    then show ?thesis by (simp add: deliveries_Cons Cons.IH)
  qed
qed

lemma sint_scast_long: "sint (scast (n :: cint) :: clong) = sint n"
  by (simp add: sint_up_scast is_up)

text \<open>The product is formed in \<^verbatim>\<open>long\<close>, where it cannot overflow.\<close>

lemma wait_timeout_exact: "sint (wait_timeout w) = sint (worker_spark_naptime w) * 1000"
proof -
  let ?n = "worker_spark_naptime w"
  have lo: "- (2 ^ 31) \<le> sint ?n" using sint_ge [of ?n] by simp
  have hi: "sint ?n < 2 ^ 31" using sint_lt [of ?n] by simp
  have "sint (wait_timeout w) = signed_take_bit 63 (sint ?n * 1000)"
    unfolding wait_timeout_def by (simp add: sint_word_ariths sint_scast_long)
  also have "\<dots> = sint ?n * 1000"
    using lo hi by (intro signed_take_bit_int_eq_self) auto
  finally show ?thesis .
qed

lemma wake_cycle_starts_waiting:
  "take 2 (events (wake_cycle env w)) = [WaitLatch wake_events (wait_timeout w), ResetLatch]"
  by (simp add: wake_cycle_def wake_up_def waiting_def reloading_def Let_def and_then_def
      events_def split: prod.split flow.split)

lemma lookup_not_fire: "lookup_query a b \<noteq> fire_query c d"
proof
  assume "lookup_query a b = fire_query c d"
  then have "last (lookup_query a b) = last (fire_query c d)" by simp
  then show False by (simp add: lookup_query_def fire_query_def)
qed

lemma wake_events_25: "wake_events = 25"
  by (simp add: wake_events_def WL_LATCH_SET_def WL_TIMEOUT_def WL_POSTMASTER_DEATH_def)

lemma wait_timeout_fresh: "wait_timeout fresh = 5000"
  by (simp add: wait_timeout_def fresh_def)

subsection \<open>The phases\<close>

lemma wake_up_Continue:
  assumes "wake_up env w0 = (Continue, w, ev0)"
  shows "ev0 = [WaitLatch wake_events (wait_timeout w0), ResetLatch] \<or>
         ev0 = [WaitLatch wake_events (wait_timeout w0), ResetLatch, ProcessConfigFile]"
  using assms
  by (auto simp: wake_up_def waiting_def reloading_def Let_def and_then_def
      split: if_splits)

lemma wake_up_Stop:
  assumes "fst (wake_up env w) = Stop out"
  shows "out = Exited 1 \<and>
         events (wake_up env w) = [WaitLatch wake_events (wait_timeout w), ResetLatch, ProcExit 1]"
  using assms
  by (auto simp: wake_up_def waiting_def reloading_def Let_def and_then_def events_def
      split: if_splits)

lemma wake_up_plain:
  assumes "wl_rc env AND WL_POSTMASTER_DEATH = 0" and "sig_wait env = []" and "sig_woken env = []"
    and "\<not> got_sighup w" and "MyProc w = Some False"
  shows "wake_up env w = (Continue, w, [WaitLatch wake_events (wait_timeout w), ResetLatch])"
  using assms
  by (simp add: wake_up_def waiting_def reloading_def and_then_def Let_def deliveries_Nil)



lemma wake_up_quiet:
  assumes "wake_up env w0 = (Continue, w, ev0)"
  shows "filter is_execute ev0 = []" "filter is_fatal ev0 = []"
  using wake_up_Continue [OF assms] by auto

lemma wake_cycle_Continue:
  "wake_up env w0 = (Continue, w, ev0) \<Longrightarrow>
   wake_cycle env w0 = (case executing env w of (fl, w', ev) \<Rightarrow> (fl, w', ev0 @ ev))"
  by (simp add: wake_cycle_def and_then_Continue)


lemma executing_fire_fatal:
  assumes "spi_ret (spi env (lookup_query (worker_spark_schema w) (worker_spark_procedure w)))
             = SPI_OK_SELECT"
    and "0 < spi_processed (spi env (lookup_query (worker_spark_schema w) (worker_spark_procedure w)))"
    and "spi_ret (spi env (fire_query (worker_spark_schema w) (worker_spark_procedure w)))
             \<noteq> SPI_OK_SELECT"
  shows "executing env w =
    (Stop Fatal,
     w\<lparr>buf := fire_query (worker_spark_schema w) (worker_spark_procedure w)\<rparr>,
     open_scope w
     @ [Elog DEBUG1 ''spark worker: looking for the procedure'' [],
        SPI_execute (lookup_query (worker_spark_schema w) (worker_spark_procedure w)) False 0,
        Elog DEBUG1 ''spark worker: firing the procedure'' [],
        SPI_execute (fire_query (worker_spark_schema w) (worker_spark_procedure w)) False 0,
        Elog FATAL fatal_msg
          [ArgInt (spi_ret (spi env (fire_query (worker_spark_schema w)
                                       (worker_spark_procedure w))))]])"
  using assms by (simp add: executing_def Let_def)

lemma executing_lookup_fatal:
  assumes "spi_ret (spi env (lookup_query (worker_spark_schema w) (worker_spark_procedure w)))
             \<noteq> SPI_OK_SELECT"
  shows "executing env w =
    (Stop Fatal,
     w\<lparr>buf := lookup_query (worker_spark_schema w) (worker_spark_procedure w)\<rparr>,
     open_scope w
     @ [Elog DEBUG1 ''spark worker: looking for the procedure'' [],
        SPI_execute (lookup_query (worker_spark_schema w) (worker_spark_procedure w)) False 0,
        Elog FATAL fatal_msg
          [ArgInt (spi_ret (spi env (lookup_query (worker_spark_schema w)
                                       (worker_spark_procedure w))))]])"
  using assms by (simp add: executing_def Let_def)


lemma executing_ends:
  "fst (executing env w) = Continue \<or> fst (executing env w) = Stop Fatal"
  by (simp add: executing_def Let_def)

lemma executing_frame:
  "worker_spark_naptime (final (executing env w)) = worker_spark_naptime w"
  by (simp add: executing_def Let_def final_def deliveries_frame)

lemma executing_commands:
  "SPI_execute (lookup_text w) False 0 \<in> set (events (executing env w))"
  "SPI_execute q ro n \<in> set (events (executing env w)) \<Longrightarrow> q = lookup_text w \<or> q = call_text w"
  by (auto simp: executing_def Let_def events_def open_scope_def close_scope_def lookup_text_def
      call_text_def split: if_splits)

lemma executing_one_start: "length (filter is_start (events (executing env w))) = 1"
  by (simp add: executing_def Let_def events_def open_scope_def close_scope_def)

lemma wake_cycle_one_start:
  assumes "fst (wake_cycle env w) = Continue"
  shows "length (filter is_start (events (wake_cycle env w))) = 1"
proof -
  obtain fl w1 ev0 where wu: "wake_up env w = (fl, w1, ev0)" by (cases "wake_up env w")
  with assms have fl: "fl = Continue" by (cases fl) (simp_all add: wake_cycle_def and_then_Stop)
  have q: "filter is_start ev0 = []"
    using wake_up_Continue [OF wu [unfolded fl]] by auto
  obtain fl' w' ev where ex: "executing env w1 = (fl', w', ev)" by (cases "executing env w1")
  have "length (filter is_start ev) = 1"
    using executing_one_start [of env w1] by (simp add: ex events_def)
  then show ?thesis
    using q by (simp add: wake_cycle_Continue [OF wu [unfolded fl]] ex events_def)
qed



text \<open>A pass that falls through the Executing phase, event by event.\<close>

lemma executing_Continue_events:
  assumes "fst (executing env w) = Continue"
  shows "events (executing env w) =
     [SetCurrentStatementStartTimestamp, StartTransactionCommand, SPI_connect,
      PushActiveSnapshot, ReportActivity STATE_RUNNING (Some (buf w)),
      Elog DEBUG1 ''spark worker: looking for the procedure'' [],
      SPI_execute (lookup_text w) False 0]
     @ (if 0 < spi_processed (spi env (lookup_text w))
        then [Elog DEBUG1 ''spark worker: firing the procedure'' [],
              SPI_execute (call_text w) False 0]
        else [Elog DEBUG1 ''spark worker: procedure %s.%s not found in database %s''
                [ArgStr (worker_spark_schema w), ArgStr (worker_spark_procedure w),
                 ArgStr (worker_spark_database w)]])
     @ [SPI_finish, PopActiveSnapshot, CommitTransactionCommand,
        ReportActivity STATE_IDLE None]"
  using assms
  by (simp add: executing_def Let_def events_def open_scope_def close_scope_def lookup_text_def
      call_text_def split: if_splits)


subsection \<open>The loop\<close>

lemma main_loop_sigterm: "got_sigterm w \<Longrightarrow> main_loop w envs = (Exited 0, w, [ProcExit 0])"
  by (cases envs) simp_all

lemma main_loop_Continue:
  assumes "\<not> got_sigterm w0" and "fst (wake_cycle env w0) = Continue"
  shows "main_loop w0 (env # envs) =
         (case main_loop (final (wake_cycle env w0)) envs of
            (out, w', ev) \<Rightarrow> (out, w', events (wake_cycle env w0) @ ev))"
  using assms by (cases "wake_cycle env w0") (simp add: final_def events_def)

lemma main_loop_Stop:
  assumes "\<not> got_sigterm w0" and "fst (wake_cycle env w0) = Stop out"
  shows "main_loop w0 (env # envs) =
         (out, final (wake_cycle env w0), events (wake_cycle env w0))"
  using assms by (cases "wake_cycle env w0") (simp add: final_def events_def)

lemma worker_spark_main_events:
  "events (worker_spark_main w sig_init envs) =
     [Elog DEBUG1 ''spark worker: start'' [], Pqsignal SIGHUP, Pqsignal SIGTERM,
      BackgroundWorkerUnblockSignals,
      BackgroundWorkerInitializeConnection (worker_spark_database w)]
     @ events (main_loop (deliveries sig_init (w\<lparr>buf := []\<rparr>)) envs)"
  by (simp add: worker_spark_main_def Let_def events_def split: prod.split)

subsection \<open>The shutdown flag through a pass\<close>

lemma final_and_then:
  "final (and_then s f) = (case fst s of Continue \<Rightarrow> final (f (final s)) | Stop out \<Rightarrow> final s)"
  by (cases s; cases "fst s") (auto simp: and_then_def final_def split: prod.split flow.split)

lemma waiting_keeps_sigterm:
  "got_sigterm (deliveries (sig_wait env) w) \<Longrightarrow> got_sigterm (final (waiting env w))"
  by (simp add: waiting_def Let_def final_def deliveries_keep_sigterm)

lemma reloading_keeps_sigterm: "got_sigterm w \<Longrightarrow> got_sigterm (final (reloading env w))"
  by (simp add: reloading_def Let_def final_def process_config_file_def deliveries_keep_sigterm)

lemma executing_keeps_sigterm: "got_sigterm w \<Longrightarrow> got_sigterm (final (executing env w))"
  by (simp add: executing_def Let_def final_def deliveries_keep_sigterm)

lemma wake_cycle_keeps_sigterm:
  assumes "got_sigterm (deliveries (sig_wait env) w)"
  shows "got_sigterm (final (wake_cycle env w))"
proof -
  have 1: "got_sigterm (final (waiting env w))" using assms by (rule waiting_keeps_sigterm)
  have 2: "got_sigterm (final (wake_up env w))"
    unfolding wake_up_def final_and_then
    using 1 by (simp add: reloading_keeps_sigterm split: flow.split)
  show ?thesis
    unfolding wake_cycle_def final_and_then
    using 2 by (simp add: executing_keeps_sigterm split: flow.split)
qed

subsection \<open>The monitor\<close>

lemma scope_run_append:
  "scope_run s (a @ b) = (case scope_run s a of None \<Rightarrow> None | Some s' \<Rightarrow> scope_run s' b)"
  by (induction a arbitrary: s) (simp_all split: option.split)

lemma scope_wake_up:
  assumes "wake_up env w = (Continue, w1, ev0)"
  shows "scope_run no_scope ev0 = Some no_scope"
  using wake_up_Continue [OF assms] by (auto simp: no_scope_def)

lemma scope_executing:
  "scope_run no_scope (events (executing env w)) =
     Some (if fst (executing env w) = Continue then no_scope else full_scope)"
  by (simp add: executing_def Let_def events_def open_scope_def close_scope_def no_scope_def
      full_scope_def)

lemma scope_wake_cycle:
  "scope_run no_scope (events (wake_cycle env w)) =
     Some (if fst (wake_cycle env w) = Stop Fatal then full_scope else no_scope)"
proof (cases "wake_up env w")
  case (fields fl w1 ev0)
  show ?thesis
  proof (cases fl)
    case Continue
    note wu = fields [unfolded Continue]
    obtain fl' w' ev where ex: "executing env w1 = (fl', w', ev)" by (cases "executing env w1")
    have "scope_run no_scope ev = Some (if fl' = Continue then no_scope else full_scope)"
      using scope_executing [of env w1] by (simp add: ex events_def)
    moreover have "fl' = Continue \<or> fl' = Stop Fatal"
      using executing_ends [of env w1] by (simp add: ex)
    ultimately show ?thesis
      by (auto simp: wake_cycle_Continue [OF wu] ex events_def scope_run_append
          scope_wake_up [OF wu])
  next
    case (Stop out)
    then have "fst (wake_up env w) = Stop out" by (simp add: fields)
    from wake_up_Stop [OF this] show ?thesis
      by (simp add: wake_cycle_def fields Stop and_then_Stop events_def no_scope_def)
  qed
qed

section \<open>Shutdown\<close>

text \<open>
  C1, as stated: a SIGTERM received while the loop waits makes it exit with status 0
  without a new Executing phase. The run below refutes it: the signal arrives during
  \<^verbatim>\<open>WaitLatch\<close>, and the pass still opens its transaction, looks the procedure up
  and calls it before \<^verbatim>\<open>proc_exit(0)\<close>.
\<close>

theorem sigterm_while_waiting_counterexample:
  "\<not> got_sigterm fresh \<and> got_sigterm (deliveries (sig_wait sigterm_env) fresh) \<and>
   fst (main_loop fresh [sigterm_env, timeout_env]) = Exited 0 \<and>
   events (main_loop fresh [sigterm_env, timeout_env]) =
     [WaitLatch 25 5000, ResetLatch,
      SetCurrentStatementStartTimestamp, StartTransactionCommand, SPI_connect,
      PushActiveSnapshot, ReportActivity STATE_RUNNING (Some []),
      Elog DEBUG1 ''spark worker: looking for the procedure'' [],
      SPI_execute (lookup_query ''public'' ''my_spark'') False 0,
      Elog DEBUG1 ''spark worker: firing the procedure'' [],
      SPI_execute (fire_query ''public'' ''my_spark'') False 0,
      SPI_finish, PopActiveSnapshot, CommitTransactionCommand, ReportActivity STATE_IDLE None,
      ProcExit 0]"
  unfolding wake_events_25 [symmetric] wait_timeout_fresh [symmetric]
  by (simp add: wake_cycle_def wake_up_def waiting_def reloading_def executing_def and_then_def
      Let_def deliveries_def deliver_def worker_spark_sigterm_def SetLatch_def sigterm_env_def
      timeout_env_def fresh_def my_db_def one_row_def open_scope_def close_scope_def events_def
      WL_LATCH_SET_def WL_POSTMASTER_DEATH_def lookup_not_fire [symmetric] wait_timeout_def)

text \<open>
  C1, amended: a SIGTERM received while the loop waits makes it exit with status 0 within
  that pass, after the Executing phase of the pass: the flag is read at the loop test
  only, so the pass in flight, unless it ends the process itself, starts its one
  transaction, performs its catalog lookup and, on a match, its call, finishes the SPI
  connection, pops the snapshot and commits; then \<^verbatim>\<open>proc_exit(0)\<close> follows with no
  further wait, whatever the environment would offer next.
\<close>

theorem sigterm_ends_after_the_pass_in_flight:
  assumes "\<not> got_sigterm w" and "(SIGTERM, le) \<in> set (sig_wait env)"
    and "fst (wake_cycle env w) = Continue"
  shows "main_loop w (env # envs) =
           (Exited 0, final (wake_cycle env w), events (wake_cycle env w) @ [ProcExit 0]) \<and>
         length (filter is_start (events (wake_cycle env w))) = 1 \<and>
         take 1 (filter is_execute (events (wake_cycle env w))) =
           [SPI_execute (lookup_text (final (wake_up env w))) False 0] \<and>
         (events (wake_up env w) = [WaitLatch wake_events (wait_timeout w), ResetLatch] \<or>
          events (wake_up env w) =
            [WaitLatch wake_events (wait_timeout w), ResetLatch, ProcessConfigFile]) \<and>
         events (wake_cycle env w) =
           events (wake_up env w)
           @ [SetCurrentStatementStartTimestamp, StartTransactionCommand, SPI_connect,
              PushActiveSnapshot, ReportActivity STATE_RUNNING (Some (buf (final (wake_up env w)))),
              Elog DEBUG1 ''spark worker: looking for the procedure'' [],
              SPI_execute (lookup_text (final (wake_up env w))) False 0]
           @ (if 0 < spi_processed (spi env (lookup_text (final (wake_up env w))))
              then [Elog DEBUG1 ''spark worker: firing the procedure'' [],
                    SPI_execute (call_text (final (wake_up env w))) False 0]
              else [Elog DEBUG1 ''spark worker: procedure %s.%s not found in database %s''
                      [ArgStr (worker_spark_schema (final (wake_up env w))),
                       ArgStr (worker_spark_procedure (final (wake_up env w))),
                       ArgStr (worker_spark_database (final (wake_up env w)))]])
           @ [SPI_finish, PopActiveSnapshot, CommitTransactionCommand,
              ReportActivity STATE_IDLE None]"
proof -
  have "got_sigterm (final (wake_cycle env w))"
    by (rule wake_cycle_keeps_sigterm) (rule deliveries_sigterm [OF assms(2)])
  then have a: "main_loop w (env # envs) =
           (Exited 0, final (wake_cycle env w), events (wake_cycle env w) @ [ProcExit 0])"
    by (simp del: main_loop.simps add: main_loop_Continue [OF assms(1,3)] main_loop_sigterm)
  obtain fl w1 ev0 where wu: "wake_up env w = (fl, w1, ev0)" by (cases "wake_up env w")
  with assms(3) have fl: "fl = Continue"
    by (cases fl) (simp_all add: wake_cycle_def and_then_Stop)
  note wu' = wu [unfolded fl]
  have f: "final (wake_up env w) = w1" and e0: "events (wake_up env w) = ev0"
    by (simp_all add: wu' final_def events_def)
  have "take 1 (filter is_execute (events (executing env w1))) =
          [SPI_execute (lookup_text w1) False 0]"
    by (simp add: executing_def Let_def events_def open_scope_def lookup_text_def)
  then have c: "take 1 (filter is_execute (events (wake_cycle env w))) =
           [SPI_execute (lookup_text (final (wake_up env w))) False 0]"
    by (cases "executing env w1")
       (simp add: wake_cycle_Continue [OF wu'] wake_up_quiet [OF wu'] events_def wu' final_def)
  have d: "events (wake_up env w) = [WaitLatch wake_events (wait_timeout w), ResetLatch] \<or>
          events (wake_up env w) =
            [WaitLatch wake_events (wait_timeout w), ResetLatch, ProcessConfigFile]"
    using wake_up_Continue [OF wu'] by (simp add: e0)
  have ex: "fst (executing env w1) = Continue"
    using assms(3) by (cases "executing env w1") (simp add: wake_cycle_Continue [OF wu'])
  have "events (wake_cycle env w) = ev0 @ events (executing env w1)"
    by (cases "executing env w1") (simp add: wake_cycle_Continue [OF wu'] events_def)
  then have e: "events (wake_cycle env w) =
           events (wake_up env w)
           @ [SetCurrentStatementStartTimestamp, StartTransactionCommand, SPI_connect,
              PushActiveSnapshot, ReportActivity STATE_RUNNING (Some (buf (final (wake_up env w)))),
              Elog DEBUG1 ''spark worker: looking for the procedure'' [],
              SPI_execute (lookup_text (final (wake_up env w))) False 0]
           @ (if 0 < spi_processed (spi env (lookup_text (final (wake_up env w))))
              then [Elog DEBUG1 ''spark worker: firing the procedure'' [],
                    SPI_execute (call_text (final (wake_up env w))) False 0]
              else [Elog DEBUG1 ''spark worker: procedure %s.%s not found in database %s''
                      [ArgStr (worker_spark_schema (final (wake_up env w))),
                       ArgStr (worker_spark_procedure (final (wake_up env w))),
                       ArgStr (worker_spark_database (final (wake_up env w)))]])
           @ [SPI_finish, PopActiveSnapshot, CommitTransactionCommand,
              ReportActivity STATE_IDLE None]"
    unfolding f e0 by (simp only: executing_Continue_events [OF ex])
  from a wake_cycle_one_start [OF assms(3)] c d e show ?thesis by (intro conjI)
qed

theorem sigterm_ends_after_the_pass_in_flight_witness:
  "\<not> got_sigterm fresh \<and> (SIGTERM, None) \<in> set (sig_wait sigterm_env) \<and>
   fst (wake_cycle sigterm_env fresh) = Continue \<and>
   fst (main_loop fresh [sigterm_env, timeout_env]) = Exited 0 \<and>
   length (filter is_start (events (wake_cycle sigterm_env fresh))) = 1 \<and>
   events (main_loop fresh [sigterm_env, timeout_env]) =
     events (wake_cycle sigterm_env fresh) @ [ProcExit 0] \<and>
   events (wake_cycle sigterm_env fresh) =
     [WaitLatch wake_events (wait_timeout fresh), ResetLatch,
      SetCurrentStatementStartTimestamp, StartTransactionCommand, SPI_connect,
      PushActiveSnapshot, ReportActivity STATE_RUNNING (Some []),
      Elog DEBUG1 ''spark worker: looking for the procedure'' [],
      SPI_execute (lookup_query ''public'' ''my_spark'') False 0,
      Elog DEBUG1 ''spark worker: firing the procedure'' [],
      SPI_execute (fire_query ''public'' ''my_spark'') False 0,
      SPI_finish, PopActiveSnapshot, CommitTransactionCommand, ReportActivity STATE_IDLE None]"
proof -
  have a: "\<not> got_sigterm fresh" by (simp add: fresh_def)
  have b: "(SIGTERM, None) \<in> set (sig_wait sigterm_env)" by (simp add: sigterm_env_def)
  have c: "fst (wake_cycle sigterm_env fresh) = Continue"
    by (simp add: wake_cycle_def wake_up_def waiting_def reloading_def executing_def and_then_def
      Let_def deliveries_def deliver_def worker_spark_sigterm_def SetLatch_def sigterm_env_def
      timeout_env_def fresh_def my_db_def one_row_def
      WL_LATCH_SET_def WL_POSTMASTER_DEATH_def lookup_not_fire [symmetric])
  have u: "events (wake_up sigterm_env fresh) =
             [WaitLatch wake_events (wait_timeout fresh), ResetLatch]"
    by (simp add: wake_up_def waiting_def reloading_def and_then_def Let_def deliveries_def
      deliver_def worker_spark_sigterm_def SetLatch_def sigterm_env_def timeout_env_def
      fresh_def events_def WL_LATCH_SET_def WL_POSTMASTER_DEATH_def)
  have f: "buf (final (wake_up sigterm_env fresh)) = []"
    "lookup_text (final (wake_up sigterm_env fresh)) = lookup_query ''public'' ''my_spark''"
    "call_text (final (wake_up sigterm_env fresh)) = fire_query ''public'' ''my_spark''"
    by (simp_all add: wake_up_def waiting_def reloading_def and_then_def Let_def deliveries_def
      deliver_def worker_spark_sigterm_def SetLatch_def sigterm_env_def timeout_env_def
      fresh_def final_def lookup_text_def call_text_def WL_LATCH_SET_def
      WL_POSTMASTER_DEATH_def)
  have r: "0 < spi_processed (spi sigterm_env (lookup_query ''public'' ''my_spark''))"
    by (simp add: sigterm_env_def timeout_env_def my_db_def one_row_def)
  have t: "events (x, y, z) = z" for x :: outcome and y :: worker and z :: "event list"
    by (simp add: events_def)
  show ?thesis
    using sigterm_ends_after_the_pass_in_flight [OF a b c, of "[timeout_env]"] a b c r
    by (simp del: main_loop.simps add: u f t)
qed

section \<open>Names that match nothing\<close>




section \<open>Reload\<close>

text \<open>
  C3, as stated: in a pass that finds the reload flag set, the lookup and the call do not
  use the reloaded names. In the run below the worker holds \<^verbatim>\<open>my_spark\<close>, the file
  names \<^verbatim>\<open>other_spark\<close>, and the same pass looks up and calls \<^verbatim>\<open>other_spark\<close>.
\<close>

theorem reload_counterexample:
  "worker_spark_schema fresh = ''public'' \<and> worker_spark_procedure fresh = ''my_spark'' \<and>
   schema (conf_file reload_env) = ''public'' \<and>
   procedure (conf_file reload_env) = ''other_spark'' \<and>
   got_sighup (final (waiting reload_env fresh)) \<and>
   events (wake_cycle reload_env fresh) =
     [WaitLatch 25 5000, ResetLatch, ProcessConfigFile,
      SetCurrentStatementStartTimestamp, StartTransactionCommand, SPI_connect,
      PushActiveSnapshot, ReportActivity STATE_RUNNING (Some []),
      Elog DEBUG1 ''spark worker: looking for the procedure'' [],
      SPI_execute (lookup_query ''public'' ''other_spark'') False 0,
      Elog DEBUG1 ''spark worker: firing the procedure'' [],
      SPI_execute (fire_query ''public'' ''other_spark'') False 0,
      SPI_finish, PopActiveSnapshot, CommitTransactionCommand, ReportActivity STATE_IDLE None]"
  unfolding wake_events_25 [symmetric] wait_timeout_fresh [symmetric]
  by (simp add: wake_cycle_def wake_up_def waiting_def reloading_def executing_def and_then_def
      Let_def deliveries_def deliver_def worker_spark_sighup_def SetLatch_def reload_env_def
      renamed_def renamed_db_def process_config_file_def final_def
      fresh_def one_row_def open_scope_def close_scope_def events_def
      WL_LATCH_SET_def WL_POSTMASTER_DEATH_def lookup_not_fire [symmetric] wait_timeout_def)

text \<open>
  C3, amended: in every pass that finds the reload flag set, the flag is cleared and the
  configuration reloaded before the transaction starts. The wait of that pass has used
  the old naptime, so the new interval applies from the next Waiting phase; the new
  schema and procedure names apply at once: every command executed in that same pass is
  built from them.
\<close>

theorem reload_serves_the_pass_in_flight:
  assumes "fst (waiting env w) = Continue" and "got_sighup (final (waiting env w))"
  shows "\<exists>w2. wake_up env w =
           (Continue, w2, [WaitLatch wake_events (wait_timeout w), ResetLatch, ProcessConfigFile]) \<and>
         \<not> got_sighup w2 \<and>
         worker_spark_naptime w2 = naptime (conf_file env) \<and>
         worker_spark_database w2 = database (conf_file env) \<and>
         worker_spark_schema w2 = schema (conf_file env) \<and>
         worker_spark_procedure w2 = procedure (conf_file env) \<and>
         SPI_execute (lookup_query (schema (conf_file env)) (procedure (conf_file env))) False 0
           \<in> set (events (wake_cycle env w)) \<and>
         (\<forall>q ro n. SPI_execute q ro n \<in> set (events (wake_cycle env w)) \<longrightarrow>
            q = lookup_query (schema (conf_file env)) (procedure (conf_file env)) \<or>
            q = fire_query (schema (conf_file env)) (procedure (conf_file env))) \<and>
         wait_timeout (final (wake_cycle env w)) = scast (naptime (conf_file env)) * 1000"
proof -
  define w1 where "w1 = final (waiting env w)"
  define w2 where
    "w2 = process_config_file (conf_file env) ((deliveries (sig_reload env) w1)\<lparr>got_sighup := False\<rparr>)"
  let ?ev0 = "[WaitLatch wake_events (wait_timeout w), ResetLatch, ProcessConfigFile]"
  have wt: "waiting env w = (Continue, w1, [WaitLatch wake_events (wait_timeout w), ResetLatch])"
    using assms(1) by (simp add: waiting_def Let_def w1_def final_def split: if_splits)
  have hup: "got_sighup w1" using assms(2) by (simp add: w1_def)
  have wu: "wake_up env w = (Continue, w2, ?ev0)"
    using hup by (simp add: wake_up_def wt and_then_Continue reloading_def Let_def w2_def)
  have s: "\<not> got_sighup w2" "worker_spark_naptime w2 = naptime (conf_file env)"
    "worker_spark_database w2 = database (conf_file env)"
    "worker_spark_schema w2 = schema (conf_file env)"
    "worker_spark_procedure w2 = procedure (conf_file env)"
    by (simp_all add: w2_def process_config_file_def)
  have lt: "lookup_text w2 = lookup_query (schema (conf_file env)) (procedure (conf_file env))"
    and ct: "call_text w2 = fire_query (schema (conf_file env)) (procedure (conf_file env))"
    by (simp_all add: lookup_text_def call_text_def s)
  have ev: "events (wake_cycle env w) = ?ev0 @ events (executing env w2)"
    and fi: "final (wake_cycle env w) = final (executing env w2)"
    by (cases "executing env w2"; simp add: wake_cycle_Continue [OF wu] events_def final_def)+
  have m: "SPI_execute (lookup_query (schema (conf_file env)) (procedure (conf_file env))) False 0
           \<in> set (events (wake_cycle env w))"
    using executing_commands(1) [of w2 env] by (simp add: ev lt)
  have o: "SPI_execute q ro n \<in> set (events (wake_cycle env w)) \<Longrightarrow>
            q = lookup_query (schema (conf_file env)) (procedure (conf_file env)) \<or>
            q = fire_query (schema (conf_file env)) (procedure (conf_file env))" for q ro n
    using executing_commands(2) [of q ro n env w2] by (auto simp: ev lt ct)
  have t: "wait_timeout (final (wake_cycle env w)) = scast (naptime (conf_file env)) * 1000"
    by (simp add: fi wait_timeout_def executing_frame s)
  show ?thesis
    using wu s m o t by (intro exI [of _ w2]) blast
qed

theorem reload_serves_the_pass_in_flight_witness:
  "fst (waiting reload_env fresh) = Continue \<and> got_sighup (final (waiting reload_env fresh)) \<and>
   SPI_execute (lookup_query ''public'' ''other_spark'') False 0
     \<in> set (events (wake_cycle reload_env fresh)) \<and>
   wait_timeout fresh = 5000 \<and>
   wait_timeout (final (wake_cycle reload_env fresh)) = 60000"
proof -
  have a: "fst (waiting reload_env fresh) = Continue"
    by (simp add: waiting_def Let_def reload_env_def WL_LATCH_SET_def WL_POSTMASTER_DEATH_def)
  have b: "got_sighup (final (waiting reload_env fresh))"
    by (simp add: waiting_def Let_def reload_env_def WL_LATCH_SET_def WL_POSTMASTER_DEATH_def
        final_def deliveries_def deliver_def worker_spark_sighup_def SetLatch_def fresh_def)
  have c: "conf_file reload_env = renamed" by (simp add: reload_env_def)
  show ?thesis
    using reload_serves_the_pass_in_flight [OF a b] a b
    by (auto simp: c renamed_def wait_timeout_fresh)
qed

section \<open>A match\<close>




section \<open>No match\<close>



section \<open>Unexpected results\<close>

text \<open>
  C6: if the catalog lookup, or the call after a match, returns a code other than
  \<^verbatim>\<open>SPI_OK_SELECT\<close>, the run ends there with \<^verbatim>\<open>elog(FATAL)\<close> reporting that
  code: the failed command has been executed once, nothing follows the fatal report
  whatever the environment would offer next, and the transaction is not committed.
\<close>

theorem unexpected_result_is_fatal:
  assumes "\<not> got_sigterm w0"
    and "wake_up env w0 = (Continue, w, ev0)"
    and "spi_ret (spi env (lookup_text w)) \<noteq> SPI_OK_SELECT \<or>
         (0 < spi_processed (spi env (lookup_text w)) \<and>
          spi_ret (spi env (call_text w)) \<noteq> SPI_OK_SELECT)"
  shows "fst (main_loop w0 (env # envs)) = Fatal \<and>
         (\<exists>ev q. (q = lookup_text w \<or> q = call_text w) \<and>
            spi_ret (spi env q) \<noteq> SPI_OK_SELECT \<and>
            events (main_loop w0 (env # envs)) =
              ev @ [SPI_execute q False 0, Elog FATAL fatal_msg [ArgInt (spi_ret (spi env q))]] \<and>
            SPI_execute q False 0 \<notin> set ev \<and> filter is_fatal ev = [] \<and>
            CommitTransactionCommand \<notin> set ev)"
proof (cases "spi_ret (spi env (lookup_text w)) \<noteq> SPI_OK_SELECT")
  case True
  let ?ev = "ev0 @ open_scope w @ [Elog DEBUG1 ''spark worker: looking for the procedure'' []]"
  from True assms(2) have wc: "wake_cycle env w0 =
      (Stop Fatal, w\<lparr>buf := lookup_text w\<rparr>,
       ?ev @ [SPI_execute (lookup_text w) False 0,
              Elog FATAL fatal_msg [ArgInt (spi_ret (spi env (lookup_text w)))]])"
    unfolding lookup_text_def
    by (simp add: wake_cycle_Continue executing_lookup_fatal)
  then have st: "fst (wake_cycle env w0) = Stop Fatal" by simp
  have ml: "main_loop w0 (env # envs) =
      (Fatal, w\<lparr>buf := lookup_text w\<rparr>,
       ?ev @ [SPI_execute (lookup_text w) False 0,
              Elog FATAL fatal_msg [ArgInt (spi_ret (spi env (lookup_text w)))]])"
    using main_loop_Stop [OF assms(1) st, of envs] wc by (simp add: final_def events_def)
  have clean: "SPI_execute (lookup_text w) False 0 \<notin> set ?ev \<and> filter is_fatal ?ev = [] \<and>
      CommitTransactionCommand \<notin> set ?ev"
    using wake_up_Continue [OF assms(2)] by (auto simp: open_scope_def)
  show ?thesis
    using True ml clean
    by (intro conjI exI [of _ ?ev] exI [of _ "lookup_text w"]) (simp_all add: events_def)
next
  case False
  with assms(3) have ok: "spi_ret (spi env (lookup_text w)) = SPI_OK_SELECT"
    and pos: "0 < spi_processed (spi env (lookup_text w))"
    and bad: "spi_ret (spi env (call_text w)) \<noteq> SPI_OK_SELECT"
    by auto
  let ?ev = "ev0 @ open_scope w
             @ [Elog DEBUG1 ''spark worker: looking for the procedure'' [],
                SPI_execute (lookup_text w) False 0,
                Elog DEBUG1 ''spark worker: firing the procedure'' []]"
  from ok pos bad assms(2) have wc: "wake_cycle env w0 =
      (Stop Fatal, w\<lparr>buf := call_text w\<rparr>,
       ?ev @ [SPI_execute (call_text w) False 0,
              Elog FATAL fatal_msg [ArgInt (spi_ret (spi env (call_text w)))]])"
    unfolding lookup_text_def call_text_def
    by (simp add: wake_cycle_Continue executing_fire_fatal)
  then have st: "fst (wake_cycle env w0) = Stop Fatal" by simp
  have ml: "main_loop w0 (env # envs) =
      (Fatal, w\<lparr>buf := call_text w\<rparr>,
       ?ev @ [SPI_execute (call_text w) False 0,
              Elog FATAL fatal_msg [ArgInt (spi_ret (spi env (call_text w)))]])"
    using main_loop_Stop [OF assms(1) st, of envs] wc by (simp add: final_def events_def)
  have ne: "lookup_text w \<noteq> call_text w"
    by (simp add: lookup_text_def call_text_def lookup_not_fire)
  have clean: "SPI_execute (call_text w) False 0 \<notin> set ?ev \<and> filter is_fatal ?ev = [] \<and>
      CommitTransactionCommand \<notin> set ?ev"
    using wake_up_Continue [OF assms(2)] ne by (auto simp: open_scope_def)
  show ?thesis
    using bad ml clean
    by (intro conjI exI [of _ ?ev] exI [of _ "call_text w"]) (simp_all add: events_def)
qed

theorem unexpected_result_is_fatal_witness:
  "\<not> got_sigterm injected \<and>
   wake_up injected_env injected =
     (Continue, injected, [WaitLatch wake_events (wait_timeout injected), ResetLatch]) \<and>
   spi_ret (spi injected_env (lookup_text injected)) \<noteq> SPI_OK_SELECT \<and>
   fst (main_loop injected [injected_env, timeout_env]) = Fatal"
proof -
  have a: "\<not> got_sigterm injected" by (simp add: injected_def fresh_def)
  have b: "wake_up injected_env injected =
     (Continue, injected, [WaitLatch wake_events (wait_timeout injected), ResetLatch])"
    by (rule wake_up_plain)
       (simp_all add: injected_env_def timeout_env_def injected_def fresh_def WL_TIMEOUT_def
          WL_POSTMASTER_DEATH_def)
  have c: "spi_ret (spi injected_env (lookup_text injected)) \<noteq> SPI_OK_SELECT"
    by (simp add: injected_env_def timeout_env_def injected_def fresh_def lookup_text_def
        injected_db_def utility_done_def SPI_OK_UTILITY_def SPI_OK_SELECT_def)
  show ?thesis
    using unexpected_result_is_fatal [OF a b disjI1 [OF c], of "[timeout_env]"] a b c by simp
qed

section \<open>Host death\<close>

text \<open>
  C7: if the timed wait reports the death of the postmaster, the process exits at once
  with status 1: after \<^verbatim>\<open>WaitLatch\<close> and \<^verbatim>\<open>ResetLatch\<close> the only call is
  \<^verbatim>\<open>proc_exit(1)\<close>; no transaction is opened, nothing is executed and nothing is
  cleaned up in that pass.
\<close>

theorem host_death_exits_at_once:
  assumes "\<not> got_sigterm w" and "wl_rc env AND WL_POSTMASTER_DEATH \<noteq> 0"
  shows "fst (main_loop w (env # envs)) = Exited 1 \<and>
         events (main_loop w (env # envs)) =
           [WaitLatch wake_events (wait_timeout w), ResetLatch, ProcExit 1]"
  using assms
  by (simp add: wake_cycle_def wake_up_def waiting_def Let_def and_then_Stop events_def)

theorem host_death_exits_at_once_witness:
  "\<not> got_sigterm fresh \<and> wl_rc death_env AND WL_POSTMASTER_DEATH \<noteq> 0 \<and>
   fst (main_loop fresh [death_env, timeout_env]) = Exited 1 \<and>
   events (main_loop fresh [death_env, timeout_env]) =
     [WaitLatch 25 5000, ResetLatch, ProcExit 1]"
proof -
  have a: "\<not> got_sigterm fresh" by (simp add: fresh_def)
  have b: "wl_rc death_env AND WL_POSTMASTER_DEATH \<noteq> 0"
    by (simp add: death_env_def timeout_env_def WL_LATCH_SET_def WL_POSTMASTER_DEATH_def)
  have c: "wake_events = 25"
    by (simp add: wake_events_def WL_LATCH_SET_def WL_TIMEOUT_def WL_POSTMASTER_DEATH_def)
  have d: "wait_timeout fresh = 5000" by (simp add: wait_timeout_def fresh_def)
  show ?thesis
    using host_death_exits_at_once [OF a b, of "[timeout_env]"] a b c d by simp
qed

section \<open>The timed wait\<close>

text \<open>
  C8: every pass through the loop body starts with the timed wait, before anything of
  the Executing phase; the wait is entered with a timeout of exactly
  \<^verbatim>\<open>worker_spark_naptime\<close> times 1000 milliseconds, and it is asked to wake on the
  latch, on the timeout and on postmaster death only (no socket event).
\<close>

theorem wait_is_naptime_seconds:
  "take 2 (events (wake_cycle env w)) = [WaitLatch wake_events (wait_timeout w), ResetLatch] \<and>
   sint (wait_timeout w) = sint (worker_spark_naptime w) * 1000 \<and>
   wake_events = WL_LATCH_SET OR WL_TIMEOUT OR WL_POSTMASTER_DEATH \<and>
   wake_events AND WL_SOCKET_READABLE = 0 \<and> wake_events AND WL_SOCKET_WRITEABLE = 0"
  by (simp add: wake_cycle_starts_waiting wait_timeout_exact)
     (simp add: wake_events_def WL_LATCH_SET_def WL_TIMEOUT_def WL_POSTMASTER_DEATH_def
        WL_SOCKET_READABLE_def WL_SOCKET_WRITEABLE_def)

section \<open>One transaction at a time\<close>

text \<open>
  C9: along every run of the loop the monitor accepts every event: a transaction is
  started only when none is open, commands are executed inside the open transaction
  with its SPI connection and snapshot, every wait on the latch happens with nothing
  open, and the transaction is committed only after \<^verbatim>\<open>SPI_finish\<close> and
  \<^verbatim>\<open>PopActiveSnapshot\<close>. At the end of the run nothing is open, unless the run ended
  in \<^verbatim>\<open>elog(FATAL)\<close>, which leaves the process with its one transaction open.
\<close>

theorem one_scope_at_a_time:
  "scope_run no_scope (events (main_loop w envs)) =
     Some (if fst (main_loop w envs) = Fatal then full_scope else no_scope)"
proof (induction envs arbitrary: w)
  case Nil
  show ?case by (simp add: events_def no_scope_def)
next
  case (Cons env envs)
  show ?case
  proof (cases "got_sigterm w")
    case True
    then show ?thesis by (simp add: events_def no_scope_def)
  next
    case False
    show ?thesis
    proof (cases "fst (wake_cycle env w)")
      case Continue
      obtain out w' ev where ml: "main_loop (final (wake_cycle env w)) envs = (out, w', ev)"
        by (cases "main_loop (final (wake_cycle env w)) envs")
      have "scope_run no_scope ev = Some (if out = Fatal then full_scope else no_scope)"
        using Cons.IH [of "final (wake_cycle env w)"] by (simp add: ml events_def)
      then show ?thesis
        using scope_wake_cycle [of env w] Continue
        by (simp del: main_loop.simps add: main_loop_Continue [OF False Continue] ml events_def
            scope_run_append)
    next
      case (Stop out)
      have "out = Exited 1 \<or> out = Fatal"
      proof (cases "wake_up env w")
        case (fields fl w1 ev0)
        show ?thesis
        proof (cases fl)
          case Continue
          with Stop fields executing_ends [of env w1] show ?thesis
            by (cases "executing env w1") (auto simp: wake_cycle_def and_then_Continue)
        next
          case (Stop out')
          then have "fst (wake_up env w) = Stop out'" by (simp add: fields)
          from wake_up_Stop [OF this] \<open>fst (wake_cycle env w) = Stop out\<close> Stop fields
          show ?thesis by (simp add: wake_cycle_def and_then_Stop)
        qed
      qed
      then show ?thesis
        using scope_wake_cycle [of env w] Stop
        by (auto simp del: main_loop.simps simp add: main_loop_Stop [OF False Stop] events_def)
    qed
  qed
qed

theorem one_scope_at_a_time_witness:
  "fst (main_loop fresh [timeout_env]) = Running \<and>
   length (filter is_start (events (main_loop fresh [timeout_env]))) = 1 \<and>
   scope_run no_scope (events (main_loop fresh [timeout_env])) = Some no_scope \<and>
   fst (main_loop injected [injected_env]) = Fatal \<and>
   scope_run no_scope (events (main_loop injected [injected_env])) = Some full_scope"
proof -
  have a: "fst (main_loop fresh [timeout_env]) = Running \<and>
    length (filter is_start (events (main_loop fresh [timeout_env]))) = 1"
    by (simp add: wake_cycle_def wake_up_def waiting_def reloading_def executing_def and_then_def
      Let_def deliveries_def timeout_env_def fresh_def my_db_def one_row_def open_scope_def
      close_scope_def events_def WL_TIMEOUT_def WL_POSTMASTER_DEATH_def
      lookup_not_fire [symmetric])
  have b: "fst (main_loop injected [injected_env]) = Fatal"
    by (simp add: wake_cycle_def wake_up_def waiting_def reloading_def executing_def and_then_def
      Let_def deliveries_def timeout_env_def fresh_def injected_def injected_env_def
      injected_db_def utility_done_def SPI_OK_UTILITY_def SPI_OK_SELECT_def
      WL_TIMEOUT_def WL_POSTMASTER_DEATH_def)
  show ?thesis
    using one_scope_at_a_time [of fresh "[timeout_env]"]
      one_scope_at_a_time [of injected "[injected_env]"] a b
    by (simp del: main_loop.simps)
qed

section \<open>The handlers and errno\<close>

text \<open>
  C10: the SIGTERM handler saves \<^verbatim>\<open>errno\<close> on entry and restores it before it
  returns, so it leaves \<^verbatim>\<open>errno\<close> as it found it whatever \<^verbatim>\<open>SetLatch\<close> does; the
  SIGHUP handler does not, so after it \<^verbatim>\<open>errno\<close> is whatever \<^verbatim>\<open>SetLatch\<close> left
  there.
\<close>

theorem sigterm_restores_errno_sighup_does_not:
  "errno (worker_spark_sigterm le w) = errno w \<and>
   errno (worker_spark_sighup le w) =
     (if MyProc w = None then errno w else case le of None \<Rightarrow> errno w | Some e \<Rightarrow> e)"
  by (simp add: worker_spark_sigterm_def worker_spark_sighup_def SetLatch_def Let_def
      split: option.split)

theorem sigterm_restores_errno_sighup_does_not_witness:
  "errno fresh = 0 \<and> errno (worker_spark_sigterm (Some 4) fresh) = 0 \<and>
   errno (worker_spark_sighup (Some 4) fresh) = 4"
  using sigterm_restores_errno_sighup_does_not [of "Some 4" fresh]
  by (simp add: fresh_def)

end
